theory Spec2Isabelle
  imports Main
begin

section \<open>Token codec\<close>

text \<open>
  The payload of a token, as the spec gives its shape:
  \<^verbatim>\<open>{ _id: UserId, random: Float, iat, exp }\<close>.
  An ObjectId is a number here, the value of \<^verbatim>\<open>Math.random()\<close> is the numerator of the
  double it returns, \<open>iat\<close> and \<open>exp\<close> are seconds.
\<close>

type_synonym object_id = nat

record payload =
  p_id :: object_id
  p_random :: nat
  iat :: nat
  exp :: nat

datatype jwt_error = JsonWebTokenError | TokenExpiredError

text \<open>
  Modelled from the spec: the Token Codec is the npm package jsonwebtoken, which is not
  part of the repository. The spec says
  \<^verbatim>\<open>sign(payload, secret, {expiresIn}) -> token\<close> and
  \<^verbatim>\<open>verify(token, secret) -> payload | error\<close>, tokens being opaque signed strings that
  carry a subject id and an expiry. The model keeps what the callers rely on: signing is a
  function of payload, secret, expiry window and clock; the payload can be read back; a
  token verifies under the secret it was signed with, before its expiry, and under no
  other secret. A token is the four payload fields in unary, then the key that signed it,
  separated by dots.
\<close>

definition unary :: "nat \<Rightarrow> string" where
  "unary n = replicate n CHR ''1''"

definition read_unary :: "string \<Rightarrow> (nat \<times> string) option" where
  "read_unary s =
     (case dropWhile (\<lambda>c. c = CHR ''1'') s of
        [] \<Rightarrow> None
      | c # rest \<Rightarrow>
          if c = CHR ''.'' then Some (length (takeWhile (\<lambda>c. c = CHR ''1'') s), rest)
          else None)"

definition jwt_decode :: "string \<Rightarrow> (payload \<times> string) option" where
  "jwt_decode s =
     (case read_unary s of None \<Rightarrow> None | Some (i, s1) \<Rightarrow>
      (case read_unary s1 of None \<Rightarrow> None | Some (r, s2) \<Rightarrow>
       (case read_unary s2 of None \<Rightarrow> None | Some (a, s3) \<Rightarrow>
        (case read_unary s3 of None \<Rightarrow> None | Some (e, k) \<Rightarrow>
           Some (\<lparr>p_id = i, p_random = r, iat = a, exp = e\<rparr>, k)))))"

text \<open>
  \<^verbatim>\<open>jwt.sign({ _id, random }, secret, { expiresIn })\<close> at clock reading \<open>now\<close>: the
  library adds \<open>iat = now\<close> and \<open>exp = now + expiresIn\<close>.
\<close>

definition jwt_sign :: "object_id \<Rightarrow> nat \<Rightarrow> string \<Rightarrow> nat \<Rightarrow> nat \<Rightarrow> string" where
  "jwt_sign i r secret expiresIn now =
     unary i @ ''.'' @ unary r @ ''.'' @ unary now @ ''.'' @ unary (now + expiresIn)
       @ ''.'' @ secret"

text \<open>
  \<^verbatim>\<open>jwt.verify(token, secret, callback)\<close> at clock reading \<open>now\<close>: the callback gets
  either an error (and no payload) or the payload. The empty string is refused first
  (\<^verbatim>\<open>jwt must be provided\<close>), then a string that does not parse, then a wrong signature,
  then an expiry at or before the clock.
\<close>

definition jwt_verify :: "string \<Rightarrow> string \<Rightarrow> nat \<Rightarrow> jwt_error + payload" where
  "jwt_verify token secret now =
     (if token = [] then Inl JsonWebTokenError
      else case jwt_decode token of
        None \<Rightarrow> Inl JsonWebTokenError
      | Some (p, k) \<Rightarrow>
          if k \<noteq> secret then Inl JsonWebTokenError
          else if exp p \<le> now then Inl TokenExpiredError
          else Inr p)"

section \<open>Users and the credential store\<close>

text \<open>\<^verbatim>\<open>models/users.ts\<close>: the \<^verbatim>\<open>User\<close> type; \<open>u_id\<close> is the field \<^verbatim>\<open>_id\<close>.\<close>

record user =
  username :: string
  password :: string
  avatar :: string
  email :: string
  tokens :: "string list"
  u_id :: object_id

text \<open>\<^verbatim>\<open>process.env\<close>, with the two expiry windows already read as seconds.\<close>

record env =
  TOKEN_SECRET :: string
  ACCESS_TOKEN_EXPIRES :: nat
  REFRESH_TOKEN_EXPIRES :: nat

text \<open>
  What a request can touch: the users collection (documents in insertion order), the
  files on disk, and the store connection. Every call into the store is counted in
  \<open>accesses\<close>; \<open>faults\<close> lists, for the calls still to come, whether the call raises
  (a store that is unavailable), and a call past the end of the list succeeds. A call
  that raises leaves the collection as it was.
\<close>

record world =
  users :: "user list"
  files :: "string set"
  faults :: "bool list"
  accesses :: nat

datatype store_error = StoreUnavailable | DocumentNotFound | DuplicateKey

definition store_call :: "world \<Rightarrow> bool \<times> world" where
  "store_call w =
     ((case faults w of [] \<Rightarrow> False | f # _ \<Rightarrow> f),
      w\<lparr>faults := tl (faults w), accesses := Suc (accesses w)\<rparr>)"

text \<open>\<^verbatim>\<open>BaseController.findById\<close>: \<^verbatim>\<open>this.model.findById(id)\<close>.\<close>

definition findById :: "object_id \<Rightarrow> world \<Rightarrow> (store_error + user option) \<times> world" where
  "findById i w =
     (let (raised, w') = store_call w in
      if raised then (Inl StoreUnavailable, w')
      else (Inr (find (\<lambda>u. u_id u = i) (users w')), w'))"

text \<open>\<^verbatim>\<open>UsersController.findOneByUsername\<close>: \<^verbatim>\<open>this.model.find().byUsername(username)\<close>,
  which is \<^verbatim>\<open>findOne({ username })\<close>.\<close>

definition findOneByUsername :: "string \<Rightarrow> world \<Rightarrow> (store_error + user option) \<times> world" where
  "findOneByUsername name w =
     (let (raised, w') = store_call w in
      if raised then (Inl StoreUnavailable, w')
      else (Inr (find (\<lambda>u. username u = name) (users w')), w'))"

text \<open>
  \<^verbatim>\<open>user.save()\<close> on a document that was loaded from the store: the stored document
  with the same \<^verbatim>\<open>_id\<close> is replaced; saving a document that is no longer stored raises.
\<close>

definition save :: "user \<Rightarrow> world \<Rightarrow> (store_error + unit) \<times> world" where
  "save doc w =
     (let (raised, w') = store_call w in
      if raised then (Inl StoreUnavailable, w')
      else if u_id doc \<in> u_id ` set (users w')
      then (Inr (), w'\<lparr>users := map (\<lambda>u. if u_id u = u_id doc then doc else u) (users w')\<rparr>)
      else (Inl DocumentNotFound, w'))"

text \<open>
  \<^verbatim>\<open>BaseController.create\<close>: \<^verbatim>\<open>this.model.create(datum)\<close>. The datum has no
  \<^verbatim>\<open>_id\<close>; the new document gets one that no stored document has. The schema makes
  \<^verbatim>\<open>username\<close> unique, so a second document with a stored username is refused.
\<close>

definition fresh_id :: "user list \<Rightarrow> object_id" where
  "fresh_id us = Suc (fold max (map u_id us) 0)"

definition create :: "user \<Rightarrow> world \<Rightarrow> (store_error + user) \<times> world" where
  "create datum w =
     (let (raised, w') = store_call w in
      if raised then (Inl StoreUnavailable, w')
      else if username datum \<in> username ` set (users w') then (Inl DuplicateKey, w')
      else (let doc = datum\<lparr>u_id := fresh_id (users w')\<rparr>
            in (Inr doc, w'\<lparr>users := users w' @ [doc]\<rparr>)))"

section \<open>The users controller\<close>

text \<open>How a promise ends: resolved, rejected, or never settled.\<close>

datatype 'a promise = Resolved 'a | Rejected string | Pending

record token_pair =
  accessToken :: string
  refreshToken :: string

text \<open>
  \<^verbatim>\<open>UsersController.generateTokens\<close>. \<open>random\<close> is the one value of
  \<^verbatim>\<open>Math.random()\<close> the call draws; \<open>clock_a\<close> and \<open>clock_r\<close> are the clock readings
  of the first and the second \<^verbatim>\<open>jwt.sign\<close>.
\<close>

definition generateTokens :: "env \<Rightarrow> nat \<Rightarrow> nat \<Rightarrow> nat \<Rightarrow> object_id \<Rightarrow> token_pair" where
  "generateTokens e random clock_a clock_r i =
     \<lparr>accessToken = jwt_sign i random (TOKEN_SECRET e) (ACCESS_TOKEN_EXPIRES e) clock_a,
      refreshToken = jwt_sign i random (TOKEN_SECRET e) (REFRESH_TOKEN_EXPIRES e) clock_r\<rparr>"

text \<open>
  \<^verbatim>\<open>UsersController.verifyRefreshToken\<close>. The callback of \<^verbatim>\<open>jwt.verify\<close> reads
  \<^verbatim>\<open>userInfo._id\<close> before its \<^verbatim>\<open>try\<close> block and never looks at \<^verbatim>\<open>err\<close>: when
  verification fails \<^verbatim>\<open>userInfo\<close> is undefined, the read throws inside the async
  callback, and neither \<^verbatim>\<open>resolve\<close> nor \<^verbatim>\<open>reject\<close> is ever called. Inside the
  \<^verbatim>\<open>try\<close>, anything the store raises is caught and rejects with \<^verbatim>\<open>'fail'\<close>.
\<close>

definition verifyRefreshToken :: "env \<Rightarrow> nat \<Rightarrow> string \<Rightarrow> world \<Rightarrow> user promise \<times> world" where
  "verifyRefreshToken e now refresh_token w =
     (case jwt_verify refresh_token (TOKEN_SECRET e) now of
        Inl err \<Rightarrow> (Pending, w)
      | Inr userInfo \<Rightarrow>
          (case findById (p_id userInfo) w of
             (Inl raised, w1) \<Rightarrow> (Rejected ''fail'', w1)
           | (Inr None, w1) \<Rightarrow> (Rejected ''fail'', w1)
           | (Inr (Some user), w1) \<Rightarrow>
               if refresh_token \<notin> set (tokens user) then
                 (case save (user\<lparr>tokens := []\<rparr>) w1 of
                    (Inl raised, w2) \<Rightarrow> (Rejected ''fail'', w2)
                  | (Inr _, w2) \<Rightarrow> (Rejected ''fail'', w2))
               else
                 (let user' = user\<lparr>tokens := filter (\<lambda>token. token \<noteq> refresh_token) (tokens user)\<rparr>
                  in case save user' w1 of
                       (Inl raised, w2) \<Rightarrow> (Rejected ''fail'', w2)
                     | (Inr _, w2) \<Rightarrow> (Resolved user', w2))))"


section \<open>The routes of the users router\<close>

text \<open>
  What a handler reads from outside the request and the store: the clock at
  \<^verbatim>\<open>jwt.verify\<close>, the value of \<^verbatim>\<open>Math.random()\<close>, the clock at the two
  \<^verbatim>\<open>jwt.sign\<close> calls, the bcrypt package (\<^verbatim>\<open>compare\<close>, and \<^verbatim>\<open>genSalt\<close>
  followed by \<^verbatim>\<open>hash\<close>), and \<^verbatim>\<open>path.sep\<close>.
\<close>

record runtime =
  now :: nat
  math_random :: nat
  clock_access :: nat
  clock_refresh :: nat
  bcrypt_compare :: "string \<Rightarrow> string \<Rightarrow> bool"
  bcrypt_hash :: "string \<Rightarrow> string"
  path_sep :: char

datatype body =
    Text string
  | Error string
  | Credentials string string object_id
  | Document user

text \<open>
  How a handler ends: a response was sent, the async handler threw, or it waits for
  ever on a promise that never settles and sends nothing.
\<close>

datatype reply = Sent nat body | Threw | NoReply

text \<open>\<^verbatim>\<open>router.post('/login', ...)\<close>\<close>

definition login ::
  "env \<Rightarrow> runtime \<Rightarrow> string option \<Rightarrow> string option \<Rightarrow> world \<Rightarrow> reply \<times> world" where
  "login e rt req_username req_password w =
     (case req_username of
        None \<Rightarrow> (Sent 400 (Text ''Missing Arguments''), w)
      | Some name \<Rightarrow>
     (case req_password of
        None \<Rightarrow> (Sent 400 (Text ''Missing Arguments''), w)
      | Some pw \<Rightarrow>
     (case findOneByUsername name w of
        (Inl raised, w1) \<Rightarrow> (Threw, w1)
      | (Inr None, w1) \<Rightarrow> (Sent 401 (Error ''Authentication failed''), w1)
      | (Inr (Some user), w1) \<Rightarrow>
          if \<not> bcrypt_compare rt pw (password user)
          then (Sent 401 (Error ''Authentication failed''), w1)
          else
            (let pair = generateTokens e (math_random rt) (clock_access rt) (clock_refresh rt)
                          (u_id user);
                 user' = user\<lparr>tokens := tokens user @ [refreshToken pair]\<rparr>
             in case save user' w1 of
                  (Inl raised, w2) \<Rightarrow> (Threw, w2)
                | (Inr _, w2) \<Rightarrow>
                    (Sent 200 (Credentials (accessToken pair) (refreshToken pair) (u_id user)),
                     w2)))))"

text \<open>\<^verbatim>\<open>router.post('/logout', ...)\<close>\<close>

definition logout :: "env \<Rightarrow> runtime \<Rightarrow> string option \<Rightarrow> world \<Rightarrow> reply \<times> world" where
  "logout e rt req_refreshToken w =
     (case req_refreshToken of
        None \<Rightarrow> (Sent 400 (Text ''Bad Request''), w)
      | Some refresh_token \<Rightarrow>
          (case verifyRefreshToken e (now rt) refresh_token w of
             (Resolved user, w1) \<Rightarrow> (Sent 200 (Text ''OK''), w1)
           | (Rejected err, w1) \<Rightarrow> (Sent 403 (Text ''Invalid Request''), w1)
           | (Pending, w1) \<Rightarrow> (NoReply, w1)))"

text \<open>\<^verbatim>\<open>router.post('/refresh-token', ...)\<close>\<close>

definition refresh_token :: "env \<Rightarrow> runtime \<Rightarrow> string option \<Rightarrow> world \<Rightarrow> reply \<times> world" where
  "refresh_token e rt req_refreshToken w =
     (case req_refreshToken of
        None \<Rightarrow> (Sent 400 (Text ''Bad Request''), w)
      | Some oldRefreshToken \<Rightarrow>
          (case verifyRefreshToken e (now rt) oldRefreshToken w of
             (Resolved user, w1) \<Rightarrow>
               (let pair = generateTokens e (math_random rt) (clock_access rt) (clock_refresh rt)
                             (u_id user);
                    user' = user\<lparr>tokens := tokens user @ [refreshToken pair]\<rparr>
                in case save user' w1 of
                     (Inl raised, w2) \<Rightarrow> (Sent 403 (Text ''Invalid Request''), w2)
                   | (Inr _, w2) \<Rightarrow>
                       (Sent 200 (Credentials (accessToken pair) (refreshToken pair) (u_id user)),
                        w2))
           | (Rejected err, w1) \<Rightarrow> (Sent 403 (Text ''Invalid Request''), w1)
           | (Pending, w1) \<Rightarrow> (NoReply, w1)))"

text \<open>
  The file of a multipart request as the handler sees it. \<^verbatim>\<open>upload.single('avatar')\<close>
  runs before the handler and has written the file to disk, under
  \<^verbatim>\<open>public/avatars/\<close> with \<^verbatim>\<open>Date.now()\<close> and the extension of the original name
  as its name; \<open>file_path\<close> is that path.
\<close>

record upload =
  file_path :: string
  mimetype :: string

definition upload_single :: "upload option \<Rightarrow> world \<Rightarrow> world" where
  "upload_single file w =
     (case file of None \<Rightarrow> w | Some f \<Rightarrow> w\<lparr>files := insert (file_path f) (files w)\<rparr>)"

text \<open>\<^verbatim>\<open>asyncUnlink\<close>, that is \<^verbatim>\<open>fs.unlink\<close>: it raises when there is no such file.\<close>

definition asyncUnlink :: "string \<Rightarrow> world \<Rightarrow> bool \<times> world" where
  "asyncUnlink p w = (if p \<in> files w then (False, w\<lparr>files := files w - {p}\<rparr>) else (True, w))"

text \<open>The \<^verbatim>\<open>catch\<close> block of the register handler: unlink the file, throw again.\<close>

definition register_catch :: "upload \<Rightarrow> world \<Rightarrow> reply \<times> world" where
  "register_catch file w = (Threw, snd (asyncUnlink (file_path file) w))"

text \<open>The register handler from the file-type check on, all four arguments being there.\<close>

definition register_checked ::
  "runtime \<Rightarrow> string \<Rightarrow> string \<Rightarrow> string \<Rightarrow> upload \<Rightarrow> world \<Rightarrow> reply \<times> world" where
  "register_checked rt name pw mail file w =
     (if mimetype file \<noteq> ''image/png'' \<and> mimetype file \<noteq> ''image/jpeg'' then
        (case asyncUnlink (file_path file) w of
           (True, w1) \<Rightarrow> (Threw, w1)
         | (False, w1) \<Rightarrow> (Sent 400 (Text ''File Type Unsupported''), w1))
      else
        (case findOneByUsername name w of
           (Inl raised, w1) \<Rightarrow> register_catch file w1
         | (Inr (Some user), w1) \<Rightarrow>
             (case asyncUnlink (file_path file) w1 of
                (True, w2) \<Rightarrow> register_catch file w2
              | (False, w2) \<Rightarrow> (Sent 409 (Text ''Username Taken''), w2))
         | (Inr None, w1) \<Rightarrow>
             (let hashedPassword = bcrypt_hash rt pw;
                  avatar' = map (\<lambda>c. if c = path_sep rt then CHR ''/'' else c) (file_path file)
              in case create \<lparr>username = name, password = hashedPassword, avatar = avatar',
                               email = mail, tokens = [], u_id = 0\<rparr> w1 of
                   (Inl raised, w2) \<Rightarrow> register_catch file w2
                 | (Inr user, w2) \<Rightarrow> (Sent 201 (Document user), w2))))"

text \<open>The handler of \<^verbatim>\<open>router.post('/register', upload.single('avatar'), ...)\<close>.\<close>

definition register_handler ::
  "runtime \<Rightarrow> string option \<Rightarrow> string option \<Rightarrow> string option \<Rightarrow> upload option \<Rightarrow> world
     \<Rightarrow> reply \<times> world" where
  "register_handler rt req_username req_password req_email req_file w =
     (case (req_username, req_password, req_email, req_file) of
        (Some name, Some pw, Some mail, Some file) \<Rightarrow> register_checked rt name pw mail file w
      | (_, _, _, Some file) \<Rightarrow>
          (case asyncUnlink (file_path file) w of
             (True, w1) \<Rightarrow> (Threw, w1)
           | (False, w1) \<Rightarrow> (Sent 400 (Text ''Missing Arguments''), w1))
      | (_, _, _, None) \<Rightarrow> (Sent 400 (Text ''Missing Arguments''), w))"

text \<open>The route: multer stores the file, then the handler runs.\<close>

definition register ::
  "runtime \<Rightarrow> string option \<Rightarrow> string option \<Rightarrow> string option \<Rightarrow> upload option \<Rightarrow> world
     \<Rightarrow> reply \<times> world" where
  "register rt req_username req_password req_email req_file w =
     register_handler rt req_username req_password req_email req_file (upload_single req_file w)"

section \<open>The authentication middleware\<close>

text \<open>\<^verbatim>\<open>s.split(' ')\<close> of JavaScript: the pieces between the separators, at least one.\<close>

fun split_on :: "char \<Rightarrow> string \<Rightarrow> string list" where
  "split_on c [] = [[]]"
| "split_on c (x # xs) =
     (if x = c then [] # split_on c xs
      else (case split_on c xs of [] \<Rightarrow> [[x]] | y # ys \<Rightarrow> (x # y) # ys))"

text \<open>\<^verbatim>\<open>xs[i]\<close> of JavaScript: undefined out of range.\<close>

definition index :: "'a list \<Rightarrow> nat \<Rightarrow> 'a option" where
  "index xs i = (if i < length xs then Some (xs ! i) else None)"

text \<open>
  \<^verbatim>\<open>authHeaders && authHeaders.split(' ')[1]\<close>: the header is undefined or a string.
  \<^verbatim>\<open>&&\<close> gives its left operand when that is falsy, so an undefined header gives
  undefined and an empty header gives the empty string; any other header gives its
  second piece, or undefined when it has none.
\<close>

definition header_token :: "string option \<Rightarrow> string option" where
  "header_token authHeaders =
     (case authHeaders of
        None \<Rightarrow> None
      | Some h \<Rightarrow> if h = [] then Some [] else index (split_on CHR '' '' h) 1)"

text \<open>What the middleware passes to \<^verbatim>\<open>next\<close>: nothing after setting \<^verbatim>\<open>req.user\<close>,
  or an error with a status.\<close>

datatype auth_result = Authenticated payload | NextError nat

definition authenticate :: "env \<Rightarrow> nat \<Rightarrow> string option \<Rightarrow> auth_result" where
  "authenticate e clock authHeaders =
     (case header_token authHeaders of
        None \<Rightarrow> NextError 401
      | Some token \<Rightarrow>
          (case jwt_verify token (TOKEN_SECRET e) clock of
             Inl err \<Rightarrow> NextError 403
           | Inr user \<Rightarrow> Authenticated user))"


section \<open>Notions used in the statements\<close>

text \<open>No store call still to come raises.\<close>

definition store_available :: "world \<Rightarrow> bool" where
  "store_available w = (True \<notin> set (faults w))"

text \<open>The stored document with a given id.\<close>

definition stored :: "object_id \<Rightarrow> world \<Rightarrow> user option" where
  "stored i w = find (\<lambda>u. u_id u = i) (users w)"

text \<open>The status of the response a handler sent, if it sent one.\<close>

definition status_of :: "reply \<Rightarrow> nat option" where
  "status_of r = (case r of Sent status b \<Rightarrow> Some status | Threw \<Rightarrow> None | NoReply \<Rightarrow> None)"

text \<open>The same refresh token presented to rotation again and again, at the given clock
  readings, each attempt starting where the one before ended.\<close>

primrec replay :: "env \<Rightarrow> string \<Rightarrow> nat list \<Rightarrow> world \<Rightarrow> user promise list \<times> world" where
  "replay e t [] w = ([], w)"
| "replay e t (clock # clocks) w =
     (let (r, w1) = verifyRefreshToken e clock t w;
          (rs, w2) = replay e t clocks w1
      in (r # rs, w2))"

section \<open>Sample data\<close>

definition env0 :: env where
  "env0 = \<lparr>TOKEN_SECRET = ''k'', ACCESS_TOKEN_EXPIRES = 2, REFRESH_TOKEN_EXPIRES = 5\<rparr>"

definition env_same :: env where
  "env_same = \<lparr>TOKEN_SECRET = ''k'', ACCESS_TOKEN_EXPIRES = 5, REFRESH_TOKEN_EXPIRES = 5\<rparr>"

text \<open>A user with two live refresh tokens, both signed at second 1 for five seconds.\<close>

definition alice :: user where
  "alice = \<lparr>username = ''alice'', password = ''#pw'', avatar = ''public/avatars/1.png'',
            email = ''alice@example.org'',
            tokens = [''1.1.1.111111.k'', ''1.11.1.111111.k''], u_id = 1\<rparr>"

definition world0 :: world where
  "world0 = \<lparr>users = [alice], files = {''public/avatars/1.png''}, faults = [], accesses = 0\<rparr>"

definition rt0 :: runtime where
  "rt0 = \<lparr>now = 3, math_random = 4, clock_access = 3, clock_refresh = 3,
          bcrypt_compare = (\<lambda>pw h. h = CHR ''#'' # pw), bcrypt_hash = (\<lambda>pw. CHR ''#'' # pw),
          path_sep = CHR ''/''\<rparr>"

section \<open>The store\<close>

lemma store_call_available:
  "store_available w \<Longrightarrow>
   store_call w = (False, w\<lparr>faults := tl (faults w), accesses := Suc (accesses w)\<rparr>)"
  by (cases "faults w") (auto simp: store_call_def store_available_def)

lemma store_available_step:
  "store_available w \<Longrightarrow> store_available (w\<lparr>faults := tl (faults w), accesses := n\<rparr>)"
  by (cases "faults w") (auto simp: store_available_def)

lemma store_available_users [simp]:
  "store_available (w\<lparr>users := us\<rparr>) = store_available w"
  by (simp add: store_available_def)

lemma find_replace:
  "find (\<lambda>u. u_id u = i) us = Some u \<Longrightarrow> u_id d = i \<Longrightarrow>
   find (\<lambda>u. u_id u = i) (map (\<lambda>u. if u_id u = i then d else u) us) = Some d"
  by (induction us) (auto split: if_splits)

lemma find_replace_other:
  "j \<noteq> i \<Longrightarrow> u_id d = i \<Longrightarrow>
   find (\<lambda>u. u_id u = j) (map (\<lambda>u. if u_id u = i then d else u) us)
     = find (\<lambda>u. u_id u = j) us"
  by (induction us) (auto split: if_splits)

lemma find_Some_id: "find (\<lambda>u. u_id u = i) us = Some u \<Longrightarrow> u_id u = i \<and> u \<in> set us"
  by (induction us) (auto split: if_splits)

lemma stored_id: "stored i w = Some u \<Longrightarrow> u_id u = i"
  unfolding stored_def using find_Some_id by blast

lemma findById_available:
  "store_available w \<Longrightarrow>
   findById i w = (Inr (stored i w), w\<lparr>faults := tl (faults w), accesses := Suc (accesses w)\<rparr>)"
  by (simp add: findById_def store_call_available stored_def)

lemma save_available:
  "store_available w \<Longrightarrow> u_id doc \<in> u_id ` set (users w) \<Longrightarrow>
   save doc w = (Inr (), w\<lparr>users := map (\<lambda>u. if u_id u = u_id doc then doc else u) (users w),
                         faults := tl (faults w), accesses := Suc (accesses w)\<rparr>)"
  by (simp add: save_def store_call_available)

lemma length_filter_count:
  "length (filter (\<lambda>x. x \<noteq> t) xs) + count_list xs t = length xs"
  by (induction xs) auto

section \<open>Rotation\<close>

text \<open>With the store available, a token that verifies and whose user is stored makes two
  store calls: the read, and the write of the user with the new token list.\<close>

lemma verifyRefreshToken_stores:
  assumes v: "jwt_verify t (TOKEN_SECRET e) clock = Inr p"
    and f: "stored (p_id p) w = Some u"
    and a: "store_available w"
    and d: "d = u\<lparr>tokens := (if t \<in> set (tokens u)
                              then filter (\<lambda>token. token \<noteq> t) (tokens u) else [])\<rparr>"
  shows "verifyRefreshToken e clock t w =
     (if t \<in> set (tokens u) then Resolved d else Rejected ''fail'',
      w\<lparr>users := map (\<lambda>x. if u_id x = p_id p then d else x) (users w),
        faults := tl (tl (faults w)), accesses := Suc (Suc (accesses w))\<rparr>)"
proof -
  let ?w1 = "w\<lparr>faults := tl (faults w), accesses := Suc (accesses w)\<rparr>"
  from f have uid: "u_id u = p_id p" and mem: "u \<in> set (users w)"
    using find_Some_id unfolding stored_def by blast+
  have a1: "store_available ?w1" using a by (rule store_available_step)
  have fb: "findById (p_id p) w = (Inr (Some u), ?w1)"
    using f a by (simp add: findById_available)
  have dom: "p_id p \<in> u_id ` set (users ?w1)"
    using mem uid by force
  have s: "u_id x = p_id p \<Longrightarrow> save x ?w1 =
      (Inr (), w\<lparr>users := map (\<lambda>y. if u_id y = p_id p then x else y) (users w),
                 faults := tl (tl (faults w)), accesses := Suc (Suc (accesses w))\<rparr>)" for x
    using a1 dom by (simp add: save_available)
  show ?thesis
    unfolding d using v fb uid by (simp add: verifyRefreshToken_def s Let_def)
qed

lemma verifyRefreshToken_absent_rejects:
  assumes "jwt_verify t (TOKEN_SECRET e) clock = Inr p"
    and "stored (p_id p) w = Some u"
    and "t \<notin> set (tokens u)"
  shows "fst (verifyRefreshToken e clock t w) = Rejected ''fail''"
  using assms
  by (auto simp: verifyRefreshToken_def findById_def save_def store_call_def Let_def stored_def
      split: sum.splits option.splits prod.splits if_splits list.splits)

lemma sample_verify:
  "jwt_verify ''1.111.1.111111.k'' (TOKEN_SECRET env0) 3
     = Inr \<lparr>p_id = 1, p_random = 3, iat = 1, exp = 6\<rparr>"
  "jwt_verify ''1.1.1.111111.k'' (TOKEN_SECRET env0) 3
     = Inr \<lparr>p_id = 1, p_random = 1, iat = 1, exp = 6\<rparr>"
  by (simp_all add: jwt_verify_def jwt_decode_def read_unary_def env0_def)

lemma sample_world:
  "stored 1 world0 = Some alice" "store_available world0"
  by (simp_all add: stored_def store_available_def world0_def alice_def)

text \<open>
  C1. A refresh token that verifies and whose user is stored, but that is not among the
  user's live tokens, is rejected with \<^verbatim>\<open>'fail'\<close>, whatever the store does; and when the
  store is available, the user is stored afterwards with an empty token list.
\<close>

theorem reuse_revokes_all_sessions:
  assumes "jwt_verify t (TOKEN_SECRET e) clock = Inr p"
    and "stored (p_id p) w = Some u"
    and "t \<notin> set (tokens u)"
  shows "fst (verifyRefreshToken e clock t w) = Rejected ''fail'' \<and>
    (store_available w \<longrightarrow>
       stored (p_id p) (snd (verifyRefreshToken e clock t w)) = Some (u\<lparr>tokens := []\<rparr>))"
proof
  show "fst (verifyRefreshToken e clock t w) = Rejected ''fail''"
    using assms by (rule verifyRefreshToken_absent_rejects)
next
  show "store_available w \<longrightarrow>
       stored (p_id p) (snd (verifyRefreshToken e clock t w)) = Some (u\<lparr>tokens := []\<rparr>)"
  proof
    assume a: "store_available w"
    have uid: "u_id u = p_id p" using assms(2) by (rule stored_id)
    have d: "u\<lparr>tokens := []\<rparr> = u\<lparr>tokens := (if t \<in> set (tokens u)
                              then filter (\<lambda>token. token \<noteq> t) (tokens u) else [])\<rparr>"
      using assms(3) by simp
    have "find (\<lambda>u. u_id u = p_id p)
            (map (\<lambda>x. if u_id x = p_id p then u\<lparr>tokens := []\<rparr> else x) (users w))
          = Some (u\<lparr>tokens := []\<rparr>)"
      using assms(2) uid unfolding stored_def by (intro find_replace) simp_all
    then show "stored (p_id p) (snd (verifyRefreshToken e clock t w)) = Some (u\<lparr>tokens := []\<rparr>)"
      unfolding verifyRefreshToken_stores [OF assms(1,2) a d] stored_def by simp
  qed
qed

theorem reuse_revokes_all_sessions_witness:
  "jwt_verify ''1.111.1.111111.k'' (TOKEN_SECRET env0) 3
     = Inr \<lparr>p_id = 1, p_random = 3, iat = 1, exp = 6\<rparr>
   \<and> stored 1 world0 = Some alice
   \<and> ''1.111.1.111111.k'' \<notin> set (tokens alice)
   \<and> store_available world0
   \<and> fst (verifyRefreshToken env0 3 ''1.111.1.111111.k'' world0) = Rejected ''fail''
   \<and> stored 1 (snd (verifyRefreshToken env0 3 ''1.111.1.111111.k'' world0))
       = Some (alice\<lparr>tokens := []\<rparr>)"
proof -
  have v: "jwt_verify ''1.111.1.111111.k'' (TOKEN_SECRET env0) 3
     = Inr \<lparr>p_id = 1, p_random = 3, iat = 1, exp = 6\<rparr>"
    by (rule sample_verify)
  have f: "stored (p_id \<lparr>p_id = 1, p_random = 3, iat = 1, exp = 6\<rparr>) world0 = Some alice"
    using sample_world(1) by simp
  have n: "''1.111.1.111111.k'' \<notin> set (tokens alice)"
    by (simp add: alice_def)
  from reuse_revokes_all_sessions [OF v f n] v f n sample_world(2) show ?thesis by simp
qed

text \<open>
  C2. With the store available, a refresh token that verifies and is among the live
  tokens of its stored user is accepted: the promise resolves with the user, and that
  user is stored with the token list of before minus the presented token. As a set the
  list has lost exactly the presented token and has one element less; the entries other
  than the presented token are the same ones in the same order (the list is shorter by
  the number of times the token occurred); nothing else of the user and no other user
  has changed.
\<close>

theorem rotation_removes_presented_token:
  assumes "jwt_verify t (TOKEN_SECRET e) clock = Inr p"
    and "stored (p_id p) w = Some u"
    and "t \<in> set (tokens u)"
    and "store_available w"
  shows "\<exists>u'. verifyRefreshToken e clock t w = (Resolved u', snd (verifyRefreshToken e clock t w))
      \<and> stored (p_id p) (snd (verifyRefreshToken e clock t w)) = Some u'
      \<and> u' = u\<lparr>tokens := tokens u'\<rparr>
      \<and> set (tokens u') = set (tokens u) - {t}
      \<and> Suc (card (set (tokens u'))) = card (set (tokens u))
      \<and> filter (\<lambda>token. token \<noteq> t) (tokens u') = filter (\<lambda>token. token \<noteq> t) (tokens u)
      \<and> length (tokens u') + count_list (tokens u) t = length (tokens u)
      \<and> (\<forall>j. j = p_id p \<or> stored j (snd (verifyRefreshToken e clock t w)) = stored j w)"
proof -
  let ?ts = "filter (\<lambda>token. token \<noteq> t) (tokens u)"
  let ?u' = "u\<lparr>tokens := ?ts\<rparr>"
  let ?R = "verifyRefreshToken e clock t w"
  have uid: "u_id u = p_id p" using assms(2) by (rule stored_id)
  have d: "?u' = u\<lparr>tokens := (if t \<in> set (tokens u) then ?ts else [])\<rparr>"
    using assms(3) by simp
  have R: "?R = (Resolved ?u',
      w\<lparr>users := map (\<lambda>x. if u_id x = p_id p then ?u' else x) (users w),
        faults := tl (tl (faults w)), accesses := Suc (Suc (accesses w))\<rparr>)"
    unfolding verifyRefreshToken_stores [OF assms(1,2,4) d] using assms(3) by simp
  have 1: "?R = (Resolved ?u', snd ?R)" by (simp add: R)
  have 2: "stored (p_id p) (snd ?R) = Some ?u'"
    using assms(2) uid unfolding R stored_def by (simp add: find_replace)
  have 4: "set ?ts = set (tokens u) - {t}" by auto
  have 5: "Suc (card (set ?ts)) = card (set (tokens u))"
    unfolding 4 using assms(3) card_Suc_Diff1 [of "set (tokens u)" t] by simp
  have 7: "length ?ts + count_list (tokens u) t = length (tokens u)"
    by (rule length_filter_count)
  have 8: "\<forall>j. j = p_id p \<or> stored j (snd ?R) = stored j w"
  proof
    fix j
    show "j = p_id p \<or> stored j (snd ?R) = stored j w"
    proof (cases "j = p_id p")
      case False
      then have "find (\<lambda>u. u_id u = j)
          (map (\<lambda>x. if u_id x = p_id p then ?u' else x) (users w))
          = find (\<lambda>u. u_id u = j) (users w)"
        using uid by (intro find_replace_other) simp_all
      then show ?thesis unfolding R stored_def by simp
    qed simp
  qed
  show ?thesis
    using 1 2 4 5 7 8 by (intro exI [of _ ?u']) simp
qed

theorem rotation_removes_presented_token_witness:
  "jwt_verify ''1.1.1.111111.k'' (TOKEN_SECRET env0) 3
     = Inr \<lparr>p_id = 1, p_random = 1, iat = 1, exp = 6\<rparr>
   \<and> stored 1 world0 = Some alice
   \<and> ''1.1.1.111111.k'' \<in> set (tokens alice)
   \<and> store_available world0
   \<and> fst (verifyRefreshToken env0 3 ''1.1.1.111111.k'' world0)
       = Resolved (alice\<lparr>tokens := [''1.11.1.111111.k'']\<rparr>)
   \<and> stored 1 (snd (verifyRefreshToken env0 3 ''1.1.1.111111.k'' world0))
       = Some (alice\<lparr>tokens := [''1.11.1.111111.k'']\<rparr>)"
proof -
  have v: "jwt_verify ''1.1.1.111111.k'' (TOKEN_SECRET env0) 3
     = Inr \<lparr>p_id = 1, p_random = 1, iat = 1, exp = 6\<rparr>"
    by (rule sample_verify)
  have f: "stored (p_id \<lparr>p_id = 1, p_random = 1, iat = 1, exp = 6\<rparr>) world0 = Some alice"
    using sample_world(1) by simp
  have m: "''1.1.1.111111.k'' \<in> set (tokens alice)"
    by (simp add: alice_def)
  from rotation_removes_presented_token [OF v f m sample_world(2)]
  obtain u' where
    1: "verifyRefreshToken env0 3 ''1.1.1.111111.k'' world0
          = (Resolved u', snd (verifyRefreshToken env0 3 ''1.1.1.111111.k'' world0))"
    and 2: "stored (p_id \<lparr>p_id = 1, p_random = 1, iat = 1, exp = 6\<rparr>)
              (snd (verifyRefreshToken env0 3 ''1.1.1.111111.k'' world0)) = Some u'"
    and 3: "u' = alice\<lparr>tokens := tokens u'\<rparr>"
    and 4: "filter (\<lambda>token. token \<noteq> ''1.1.1.111111.k'') (tokens u')
          = filter (\<lambda>token. token \<noteq> ''1.1.1.111111.k'') (tokens alice)"
    and 5: "set (tokens u') = set (tokens alice) - {''1.1.1.111111.k''}"
    by blast
  from 5 have "''1.1.1.111111.k'' \<notin> set (tokens u')" by simp
  then have "filter (\<lambda>token. token \<noteq> ''1.1.1.111111.k'') (tokens u') = tokens u'"
    by (auto simp: filter_id_conv)
  with 4 have "tokens u' = [''1.11.1.111111.k'']" by (simp add: alice_def)
  with 3 have u': "u' = alice\<lparr>tokens := [''1.11.1.111111.k'']\<rparr>" by simp
  have r: "fst (verifyRefreshToken env0 3 ''1.1.1.111111.k'' world0) = Resolved u'"
    using 1 by (metis fst_conv)
  show ?thesis using v sample_world m r 2 unfolding u' by simp
qed

text \<open>When verification fails, the promise is left pending and the world untouched.\<close>

lemma verifyRefreshToken_unverified:
  "jwt_verify t (TOKEN_SECRET e) clock = Inl err \<Longrightarrow> verifyRefreshToken e clock t w = (Pending, w)"
  by (simp add: verifyRefreshToken_def)

text \<open>
  C3. A refresh token that fails verification does not make rotation fail: for the
  string \<^verbatim>\<open>garbage\<close>, and for a live token of the sample user presented at the second
  of its expiry, the promise of \<^verbatim>\<open>verifyRefreshToken\<close> stays pending, and the
  refresh-token route sends no response.
\<close>

theorem rotation_never_settles_on_bad_token:
  "jwt_verify ''garbage'' (TOKEN_SECRET env0) 3 = Inl JsonWebTokenError
   \<and> verifyRefreshToken env0 3 ''garbage'' world0 = (Pending, world0)
   \<and> refresh_token env0 rt0 (Some ''garbage'') world0 = (NoReply, world0)
   \<and> jwt_verify ''1.1.1.111111.k'' (TOKEN_SECRET env0) 6 = Inl TokenExpiredError
   \<and> verifyRefreshToken env0 6 ''1.1.1.111111.k'' world0 = (Pending, world0)"
  by (simp add: verifyRefreshToken_def refresh_token_def jwt_verify_def jwt_decode_def
      read_unary_def env0_def rt0_def)

section \<open>Issuing tokens\<close>

lemma dropWhile_replicate: "dropWhile (\<lambda>c. c = a) (replicate n a @ ys) = dropWhile (\<lambda>c. c = a) ys"
  by (induction n) auto

lemma takeWhile_replicate:
  "takeWhile (\<lambda>c. c = a) (replicate n a @ ys) = replicate n a @ takeWhile (\<lambda>c. c = a) ys"
  by (induction n) auto

lemma read_unary_unary: "read_unary (unary n @ CHR ''.'' # rest) = Some (n, rest)"
  by (simp add: read_unary_def unary_def dropWhile_replicate takeWhile_replicate)

lemma jwt_decode_sign:
  "jwt_decode (jwt_sign i r s x c) = Some (\<lparr>p_id = i, p_random = r, iat = c, exp = c + x\<rparr>, s)"
  by (simp add: jwt_decode_def jwt_sign_def read_unary_unary)

lemma jwt_sign_inject:
  "(jwt_sign i r s x c = jwt_sign i' r' s' x' c') = (i = i' \<and> r = r' \<and> s = s' \<and> x = x' \<and> c = c')"
proof
  assume "jwt_sign i r s x c = jwt_sign i' r' s' x' c'"
  then have "jwt_decode (jwt_sign i r s x c) = jwt_decode (jwt_sign i' r' s' x' c')" by simp
  then show "i = i' \<and> r = r' \<and> s = s' \<and> x = x' \<and> c = c'"
    by (simp add: jwt_decode_sign)
qed simp

lemma jwt_verify_sign:
  "jwt_verify (jwt_sign i r s x c) s clock =
     (if c + x \<le> clock then Inl TokenExpiredError
      else Inr \<lparr>p_id = i, p_random = r, iat = c, exp = c + x\<rparr>)"
proof -
  have "jwt_sign i r s x c \<noteq> []" by (simp add: jwt_sign_def)
  then show ?thesis by (simp add: jwt_verify_def jwt_decode_sign)
qed

text \<open>
  C6, as the code has it. Both tokens of a call carry the user id and the same nonce,
  the one value the call drew. The access token and the refresh token of a call are the
  same string exactly when both were signed at the same clock reading with equal expiry
  windows; and two calls at the same clock readings give the same access token, or the
  same refresh token, exactly when they drew the same nonce.
\<close>

theorem generateTokens_share_nonce:
  "jwt_verify (accessToken (generateTokens e r ca cr i)) (TOKEN_SECRET e) clock =
     (if ca + ACCESS_TOKEN_EXPIRES e \<le> clock then Inl TokenExpiredError
      else Inr \<lparr>p_id = i, p_random = r, iat = ca, exp = ca + ACCESS_TOKEN_EXPIRES e\<rparr>)
   \<and> jwt_verify (refreshToken (generateTokens e r ca cr i)) (TOKEN_SECRET e) clock =
     (if cr + REFRESH_TOKEN_EXPIRES e \<le> clock then Inl TokenExpiredError
      else Inr \<lparr>p_id = i, p_random = r, iat = cr, exp = cr + REFRESH_TOKEN_EXPIRES e\<rparr>)
   \<and> (accessToken (generateTokens e r ca cr i) = refreshToken (generateTokens e r ca cr i))
       = (ca = cr \<and> ACCESS_TOKEN_EXPIRES e = REFRESH_TOKEN_EXPIRES e)
   \<and> (accessToken (generateTokens e r ca cr i) = accessToken (generateTokens e r' ca cr i))
       = (r = r')
   \<and> (refreshToken (generateTokens e r ca cr i) = refreshToken (generateTokens e r' ca cr i))
       = (r = r')"
  by (auto simp: generateTokens_def jwt_verify_sign jwt_sign_inject)

text \<open>
  C6 as stated fails: with equal expiry windows and both signatures within one second,
  the access token and the refresh token of a call are the same string.
\<close>

theorem generateTokens_identical_pair:
  "ACCESS_TOKEN_EXPIRES env_same = REFRESH_TOKEN_EXPIRES env_same
   \<and> accessToken (generateTokens env_same 4 3 3 1) = refreshToken (generateTokens env_same 4 3 3 1)"
  by (simp add: generateTokens_def env_same_def)

section \<open>Authentication\<close>

text \<open>The middleware answers 401 exactly when no token comes out of the header, and 403
  exactly when the token that comes out fails verification.\<close>

lemma authenticate_cases:
  "(authenticate e clock h = NextError 401) = (header_token h = None)"
  "(authenticate e clock h = NextError 403) =
     (\<exists>token err. header_token h = Some token \<and> jwt_verify token (TOKEN_SECRET e) clock = Inl err)"
  by (auto simp: authenticate_def split: option.splits sum.splits)

text \<open>
  C7. A request whose Authorization header is the empty string presents no token, and
  is answered 403, not 401: the header itself, being falsy, becomes the token, is not
  undefined, and fails verification.
\<close>

theorem authenticate_empty_header:
  "header_token (Some []) = Some [] \<and> authenticate env0 3 (Some []) = NextError 403"
  by (simp add: authenticate_def header_token_def jwt_verify_def)

section \<open>Requests that lack a field\<close>

text \<open>Every call into the store is counted.\<close>

lemma store_calls_counted:
  "accesses (snd (findById i w)) = Suc (accesses w)"
  "accesses (snd (findOneByUsername n w)) = Suc (accesses w)"
  "accesses (snd (save d w)) = Suc (accesses w)"
  "accesses (snd (create d w)) = Suc (accesses w)"
  by (simp_all add: findById_def findOneByUsername_def save_def create_def store_call_def Let_def)

text \<open>
  C8. A login request without username or without password, a logout request without
  refresh token, and a refresh-token request without refresh token are answered 400, and
  the world is returned as it was: no store call was counted, no fault consumed, no
  document changed.
\<close>

theorem missing_field_no_store_access:
  "(req_username = None \<or> req_password = None \<longrightarrow>
      login e rt req_username req_password w = (Sent 400 (Text ''Missing Arguments''), w))
   \<and> logout e rt None w = (Sent 400 (Text ''Bad Request''), w)
   \<and> refresh_token e rt None w = (Sent 400 (Text ''Bad Request''), w)"
  by (auto simp: login_def logout_def refresh_token_def split: option.splits)

theorem missing_field_no_store_access_witness:
  "login env0 rt0 (Some ''alice'') None world0 = (Sent 400 (Text ''Missing Arguments''), world0)
   \<and> logout env0 rt0 None world0 = (Sent 400 (Text ''Bad Request''), world0)
   \<and> refresh_token env0 rt0 None world0 = (Sent 400 (Text ''Bad Request''), world0)"
  using missing_field_no_store_access [of "Some ''alice''" None env0 rt0 world0] by simp


section \<open>Reuse of a consumed token\<close>

lemma store_available_after:
  "store_available w \<Longrightarrow>
   store_available (w\<lparr>users := us, faults := tl (tl (faults w)), accesses := n\<rparr>)"
  by (cases "faults w"; cases "tl (faults w)") (auto simp: store_available_def)

lemma replace_idem:
  "u_id d = i \<Longrightarrow>
   map (\<lambda>x. if u_id x = i then d else x) (map (\<lambda>x. if u_id x = i then d else x) us)
     = map (\<lambda>x. if u_id x = i then d else x) us"
  by (induction us) auto

text \<open>Once the token is absent, every attempt is rejected and the users collection is,
  after any number of attempts, the one with this user's tokens emptied.\<close>

lemma replay_absent:
  assumes "\<forall>c \<in> set (clock # clocks). jwt_verify t (TOKEN_SECRET e) c = Inr p"
    and "stored (p_id p) w = Some u"
    and "t \<notin> set (tokens u)"
    and "store_available w"
  shows "fst (replay e t (clock # clocks) w) = replicate (Suc (length clocks)) (Rejected ''fail'')
       \<and> users (snd (replay e t (clock # clocks) w))
           = map (\<lambda>x. if u_id x = p_id p then u\<lparr>tokens := []\<rparr> else x) (users w)
       \<and> stored (p_id p) (snd (replay e t (clock # clocks) w)) = Some (u\<lparr>tokens := []\<rparr>)
       \<and> store_available (snd (replay e t (clock # clocks) w))"
  using assms
proof (induction clocks arbitrary: clock w u)
  case Nil
  let ?d = "u\<lparr>tokens := []\<rparr>"
  have v: "jwt_verify t (TOKEN_SECRET e) clock = Inr p" using Nil.prems(1) by simp
  have uid: "u_id u = p_id p" using Nil.prems(2) by (rule stored_id)
  have d: "?d = u\<lparr>tokens := (if t \<in> set (tokens u)
                              then filter (\<lambda>token. token \<noteq> t) (tokens u) else [])\<rparr>"
    using Nil.prems(3) by simp
  have s: "find (\<lambda>u. u_id u = p_id p)
            (map (\<lambda>x. if u_id x = p_id p then ?d else x) (users w)) = Some ?d"
    using Nil.prems(2) uid unfolding stored_def by (intro find_replace) simp_all
  show ?case
    using Nil.prems(3) s store_available_after [OF Nil.prems(4)]
    unfolding replay.simps verifyRefreshToken_stores [OF v Nil.prems(2) Nil.prems(4) d] stored_def
    by simp
next
  case (Cons c' clocks)
  let ?d = "u\<lparr>tokens := []\<rparr>"
  let ?w1 = "w\<lparr>users := map (\<lambda>x. if u_id x = p_id p then ?d else x) (users w),
        faults := tl (tl (faults w)), accesses := Suc (Suc (accesses w))\<rparr>"
  have v: "jwt_verify t (TOKEN_SECRET e) clock = Inr p" using Cons.prems(1) by simp
  have uid: "u_id u = p_id p" using Cons.prems(2) by (rule stored_id)
  have d: "?d = u\<lparr>tokens := (if t \<in> set (tokens u)
                              then filter (\<lambda>token. token \<noteq> t) (tokens u) else [])\<rparr>"
    using Cons.prems(3) by simp
  have step: "verifyRefreshToken e clock t w = (Rejected ''fail'', ?w1)"
    unfolding verifyRefreshToken_stores [OF v Cons.prems(2) Cons.prems(4) d]
    using Cons.prems(3) by simp
  have s: "stored (p_id p) ?w1 = Some ?d"
    using Cons.prems(2) uid unfolding stored_def by (simp add: find_replace)
  have a1: "store_available ?w1" using Cons.prems(4) by (rule store_available_after)
  have vs: "\<forall>c \<in> set (c' # clocks). jwt_verify t (TOKEN_SECRET e) c = Inr p"
    using Cons.prems(1) by simp
  have n: "t \<notin> set (tokens ?d)" by simp
  note IH = Cons.IH [OF vs s n a1]
  have dd: "?d\<lparr>tokens := []\<rparr> = ?d" by simp
  have idem: "map (\<lambda>x. if u_id x = p_id p then ?d else x) (users ?w1)
      = map (\<lambda>x. if u_id x = p_id p then ?d else x) (users w)"
    using uid by (simp add: replace_idem)
  have unroll: "replay e t (clock # c' # clocks) w =
      (Rejected ''fail'' # fst (replay e t (c' # clocks) ?w1), snd (replay e t (c' # clocks) ?w1))"
    by (subst replay.simps) (simp add: step split_beta)
  show ?case
    unfolding unroll using IH unfolding dd idem by simp
qed

text \<open>
  C5. With the store available, a live refresh token presented again and again, at
  clock readings at which it verifies: the first rotation resolves and removes it; the
  second attempt and every further one are rejected with \<^verbatim>\<open>'fail'\<close>; after the second
  attempt and after any number of further ones the user is stored with an empty token
  list, and the users collection is the same as after the second attempt.
\<close>

theorem reuse_is_terminal:
  assumes "\<forall>c \<in> set (c0 # c1 # clocks). jwt_verify t (TOKEN_SECRET e) c = Inr p"
    and "stored (p_id p) w = Some u"
    and "t \<in> set (tokens u)"
    and "store_available w"
  shows "fst (replay e t (c0 # c1 # clocks) w)
           = Resolved (u\<lparr>tokens := filter (\<lambda>token. token \<noteq> t) (tokens u)\<rparr>)
               # replicate (Suc (length clocks)) (Rejected ''fail'')
       \<and> stored (p_id p) (snd (replay e t (c0 # c1 # clocks) w)) = Some (u\<lparr>tokens := []\<rparr>)
       \<and> users (snd (replay e t (c0 # c1 # clocks) w)) = users (snd (replay e t [c0, c1] w))"
proof -
  let ?d = "u\<lparr>tokens := filter (\<lambda>token. token \<noteq> t) (tokens u)\<rparr>"
  let ?w1 = "w\<lparr>users := map (\<lambda>x. if u_id x = p_id p then ?d else x) (users w),
        faults := tl (tl (faults w)), accesses := Suc (Suc (accesses w))\<rparr>"
  have v: "jwt_verify t (TOKEN_SECRET e) c0 = Inr p" using assms(1) by simp
  have uid: "u_id u = p_id p" using assms(2) by (rule stored_id)
  have d: "?d = u\<lparr>tokens := (if t \<in> set (tokens u)
                              then filter (\<lambda>token. token \<noteq> t) (tokens u) else [])\<rparr>"
    using assms(3) by simp
  have step: "verifyRefreshToken e c0 t w = (Resolved ?d, ?w1)"
    unfolding verifyRefreshToken_stores [OF v assms(2) assms(4) d] using assms(3) by simp
  have s: "stored (p_id p) ?w1 = Some ?d"
    using assms(2) uid unfolding stored_def by (simp add: find_replace)
  have a1: "store_available ?w1" using assms(4) by (rule store_available_after)
  have n: "t \<notin> set (tokens ?d)" by simp
  have vs: "\<forall>c \<in> set (c1 # clocks). jwt_verify t (TOKEN_SECRET e) c = Inr p"
    using assms(1) by simp
  have vs1: "\<forall>c \<in> set (c1 # []). jwt_verify t (TOKEN_SECRET e) c = Inr p"
    using assms(1) by simp
  have dd: "?d\<lparr>tokens := []\<rparr> = u\<lparr>tokens := []\<rparr>" by simp
  have unroll: "replay e t (c0 # cs) w =
      (Resolved ?d # fst (replay e t cs ?w1), snd (replay e t cs ?w1))" for cs
    by (subst replay.simps) (simp add: step split_beta)
  show ?thesis
    unfolding unroll
    using replay_absent [OF vs s n a1] replay_absent [OF vs1 s n a1] unfolding dd by simp
qed

theorem reuse_is_terminal_witness:
  "map (jwt_verify ''1.1.1.111111.k'' (TOKEN_SECRET env0)) [3, 4, 5, 5]
     = replicate 4 (Inr \<lparr>p_id = 1, p_random = 1, iat = 1, exp = 6\<rparr>)
   \<and> stored 1 world0 = Some alice
   \<and> ''1.1.1.111111.k'' \<in> set (tokens alice)
   \<and> store_available world0
   \<and> fst (replay env0 ''1.1.1.111111.k'' [3, 4, 5, 5] world0)
       = [Resolved (alice\<lparr>tokens := [''1.11.1.111111.k'']\<rparr>),
          Rejected ''fail'', Rejected ''fail'', Rejected ''fail'']
   \<and> stored 1 (snd (replay env0 ''1.1.1.111111.k'' [3, 4, 5, 5] world0))
       = Some (alice\<lparr>tokens := []\<rparr>)"
proof -
  have v: "\<forall>c \<in> set (3 # 4 # [5, 5]). jwt_verify ''1.1.1.111111.k'' (TOKEN_SECRET env0) c
        = Inr \<lparr>p_id = 1, p_random = 1, iat = 1, exp = 6\<rparr>"
    by (simp add: jwt_verify_def jwt_decode_def read_unary_def env0_def)
  have f: "stored (p_id \<lparr>p_id = 1, p_random = 1, iat = 1, exp = 6\<rparr>) world0 = Some alice"
    using sample_world(1) by simp
  have m: "''1.1.1.111111.k'' \<in> set (tokens alice)"
    by (simp add: alice_def)
  have t: "filter (\<lambda>token. token \<noteq> ''1.1.1.111111.k'') (tokens alice) = [''1.11.1.111111.k'']"
    by (simp add: alice_def)
  have v': "map (jwt_verify ''1.1.1.111111.k'' (TOKEN_SECRET env0)) [3, 4, 5, 5]
     = replicate 4 (Inr \<lparr>p_id = 1, p_random = 1, iat = 1, exp = 6\<rparr>)"
    using v by (simp add: eval_nat_numeral)
  from reuse_is_terminal [OF v f m sample_world(2)] v' f m sample_world(2) t
  show ?thesis by simp
qed

section \<open>Logout\<close>

text \<open>
  C4 as stated fails: the sample user has two live tokens; a logout with a third token,
  which verifies for that user but is not live, is answered 403 and leaves the user
  stored with no token at all.
\<close>

theorem logout_revokes_on_absent_token:
  "jwt_verify ''1.111.1.111111.k'' (TOKEN_SECRET env0) (now rt0)
     = Inr \<lparr>p_id = 1, p_random = 3, iat = 1, exp = 6\<rparr>
   \<and> stored 1 world0 = Some alice
   \<and> tokens alice = [''1.1.1.111111.k'', ''1.11.1.111111.k'']
   \<and> fst (logout env0 rt0 (Some ''1.111.1.111111.k'') world0) = Sent 403 (Text ''Invalid Request'')
   \<and> stored 1 (snd (logout env0 rt0 (Some ''1.111.1.111111.k'') world0))
       = Some (alice\<lparr>tokens := []\<rparr>)"
  by (simp add: logout_def verifyRefreshToken_def findById_def save_def store_call_def
      jwt_verify_def jwt_decode_def read_unary_def stored_def
      env0_def rt0_def world0_def alice_def)

text \<open>
  C4, as the code has it. With the store available, a logout with a refresh token that
  verifies and whose user is stored: when the token is live it is answered 200 and the
  user is stored with the presented token removed and the other tokens as they were;
  when the token is not live it is answered 403 and the user is stored with an empty
  token list, as in a rotation. No other user changes.
\<close>

theorem logout_removes_or_revokes:
  assumes "jwt_verify t (TOKEN_SECRET e) (now rt) = Inr p"
    and "stored (p_id p) w = Some u"
    and "store_available w"
  shows "(t \<in> set (tokens u) \<longrightarrow>
            fst (logout e rt (Some t) w) = Sent 200 (Text ''OK'')
          \<and> stored (p_id p) (snd (logout e rt (Some t) w))
              = Some (u\<lparr>tokens := filter (\<lambda>token. token \<noteq> t) (tokens u)\<rparr>))
       \<and> (t \<notin> set (tokens u) \<longrightarrow>
            fst (logout e rt (Some t) w) = Sent 403 (Text ''Invalid Request'')
          \<and> stored (p_id p) (snd (logout e rt (Some t) w)) = Some (u\<lparr>tokens := []\<rparr>))
       \<and> (\<forall>j. j = p_id p \<or> stored j (snd (logout e rt (Some t) w)) = stored j w)"
proof -
  have uid: "u_id u = p_id p" using assms(2) by (rule stored_id)
  have s: "stored (p_id p)
      (w\<lparr>users := map (\<lambda>x. if u_id x = p_id p then d else x) (users w),
         faults := F, accesses := A\<rparr>) = Some d" if "u_id d = p_id p" for d F A
    using assms(2) that unfolding stored_def by (simp add: find_replace)
  have o: "\<forall>j. j = p_id p \<or> stored j
      (w\<lparr>users := map (\<lambda>x. if u_id x = p_id p then d else x) (users w),
         faults := F, accesses := A\<rparr>) = stored j w"
    if "u_id d = p_id p" for d F A
    using that find_replace_other [of _ "p_id p" d "users w"] unfolding stored_def by auto
  show ?thesis
  proof (cases "t \<in> set (tokens u)")
    case True
    let ?d = "u\<lparr>tokens := filter (\<lambda>token. token \<noteq> t) (tokens u)\<rparr>"
    have d: "?d = u\<lparr>tokens := (if t \<in> set (tokens u)
                              then filter (\<lambda>token. token \<noteq> t) (tokens u) else [])\<rparr>"
      using True by simp
    have L: "logout e rt (Some t) w = (Sent 200 (Text ''OK''),
        w\<lparr>users := map (\<lambda>x. if u_id x = p_id p then ?d else x) (users w),
          faults := tl (tl (faults w)), accesses := Suc (Suc (accesses w))\<rparr>)"
      using True by (simp add: logout_def verifyRefreshToken_stores [OF assms d])
    have i: "u_id ?d = p_id p" using uid by simp
    show ?thesis
      unfolding L using True s [OF i] o [OF i] by simp
  next
    case False
    let ?d = "u\<lparr>tokens := []\<rparr>"
    have d: "?d = u\<lparr>tokens := (if t \<in> set (tokens u)
                              then filter (\<lambda>token. token \<noteq> t) (tokens u) else [])\<rparr>"
      using False by simp
    have L: "logout e rt (Some t) w = (Sent 403 (Text ''Invalid Request''),
        w\<lparr>users := map (\<lambda>x. if u_id x = p_id p then ?d else x) (users w),
          faults := tl (tl (faults w)), accesses := Suc (Suc (accesses w))\<rparr>)"
      using False by (simp add: logout_def verifyRefreshToken_stores [OF assms d])
    have i: "u_id ?d = p_id p" using uid by simp
    show ?thesis
      unfolding L using False s [OF i] o [OF i] by simp
  qed
qed

theorem logout_removes_or_revokes_witness:
  "jwt_verify ''1.1.1.111111.k'' (TOKEN_SECRET env0) (now rt0)
     = Inr \<lparr>p_id = 1, p_random = 1, iat = 1, exp = 6\<rparr>
   \<and> stored 1 world0 = Some alice
   \<and> store_available world0
   \<and> ''1.1.1.111111.k'' \<in> set (tokens alice)
   \<and> fst (logout env0 rt0 (Some ''1.1.1.111111.k'') world0) = Sent 200 (Text ''OK'')
   \<and> stored 1 (snd (logout env0 rt0 (Some ''1.1.1.111111.k'') world0))
       = Some (alice\<lparr>tokens := [''1.11.1.111111.k'']\<rparr>)"
proof -
  have v: "jwt_verify ''1.1.1.111111.k'' (TOKEN_SECRET env0) (now rt0)
     = Inr \<lparr>p_id = 1, p_random = 1, iat = 1, exp = 6\<rparr>"
    using sample_verify(2) by (simp add: rt0_def)
  have f: "stored (p_id \<lparr>p_id = 1, p_random = 1, iat = 1, exp = 6\<rparr>) world0 = Some alice"
    using sample_world(1) by simp
  have m: "''1.1.1.111111.k'' \<in> set (tokens alice)"
    by (simp add: alice_def)
  have t: "filter (\<lambda>token. token \<noteq> ''1.1.1.111111.k'') (tokens alice) = [''1.11.1.111111.k'']"
    by (simp add: alice_def)
  from logout_removes_or_revokes [OF v f sample_world(2)] v f m sample_world(2) t
  show ?thesis by simp
qed

section \<open>Registration\<close>

lemma asyncUnlink_present:
  "p \<in> files w \<Longrightarrow> asyncUnlink p w = (False, w\<lparr>files := files w - {p}\<rparr>)"
  by (simp add: asyncUnlink_def)

lemma asyncUnlink_users: "users (snd (asyncUnlink p w)) = users w"
  by (simp add: asyncUnlink_def)

lemma asyncUnlink_gone: "p \<notin> files (snd (asyncUnlink p w))"
  by (simp add: asyncUnlink_def)

lemma register_catch_clean:
  "users (snd (register_catch file w)) = users w
   \<and> file_path file \<notin> files (snd (register_catch file w))
   \<and> fst (register_catch file w) = Threw"
  by (simp add: register_catch_def asyncUnlink_def)

lemma findOneByUsername_frame:
  "users (snd (findOneByUsername n w)) = users w \<and> files (snd (findOneByUsername n w)) = files w"
  by (simp add: findOneByUsername_def store_call_def Let_def)

lemma create_frame:
  "files (snd (create d w)) = files w
   \<and> (case fst (create d w) of Inl err \<Rightarrow> users (snd (create d w)) = users w | Inr doc \<Rightarrow> True)"
  by (simp add: create_def store_call_def Let_def)

lemma register_checked_clean:
  assumes "file_path file \<in> files w"
    and "status_of (fst (register_checked rt name pw mail file w)) \<noteq> Some 201"
  shows "users (snd (register_checked rt name pw mail file w)) = users w
       \<and> file_path file \<notin> files (snd (register_checked rt name pw mail file w))"
  using assms
  by (auto simp: register_checked_def register_catch_def asyncUnlink_def findOneByUsername_def
      create_def store_call_def Let_def status_of_def
      split: if_splits prod.splits sum.splits option.splits bool.splits)

text \<open>The four ways a registration fails, each with a response other than 201.\<close>

lemma registration_fails_missing:
  "req_username = None \<or> req_password = None \<or> req_email = None \<or> req_file = None \<Longrightarrow>
   status_of (fst (register rt req_username req_password req_email req_file w)) = Some 400"
  by (auto simp: register_def register_handler_def upload_single_def asyncUnlink_def status_of_def
      split: option.splits)

lemma registration_fails_file_type:
  "mimetype up \<noteq> ''image/png'' \<Longrightarrow> mimetype up \<noteq> ''image/jpeg'' \<Longrightarrow>
   status_of (fst (register rt (Some name) (Some pw) (Some mail) (Some up) w)) = Some 400"
  by (simp add: register_def register_handler_def register_checked_def upload_single_def
      asyncUnlink_def status_of_def)

lemma registration_fails_username_taken:
  "find (\<lambda>u. username u = name) (users w) = Some u \<Longrightarrow>
   status_of (fst (register rt (Some name) (Some pw) (Some mail) (Some up) w)) \<noteq> Some 201"
  by (auto simp: register_def register_handler_def register_checked_def register_catch_def
      upload_single_def asyncUnlink_def findOneByUsername_def store_call_def status_of_def Let_def
      split: list.splits)

lemma registration_fails_store_error:
  "faults w = True # fs \<or> faults w = False # True # fs \<Longrightarrow>
   status_of (fst (register rt (Some name) (Some pw) (Some mail) (Some up) w)) \<noteq> Some 201"
  by (auto simp: register_def register_handler_def register_checked_def register_catch_def
      upload_single_def asyncUnlink_def findOneByUsername_def create_def store_call_def
      status_of_def Let_def
      split: list.splits option.splits)

text \<open>
  C10. A registration that does not end in a 201 response (a missing field, an
  unsupported file type, a username that is taken, a store call that raises) leaves the
  users collection as it was, and the uploaded file, if there was one, is no longer on
  disk.
\<close>

theorem failed_registration_leaves_nothing:
  assumes "status_of (fst (register rt req_username req_password req_email req_file w)) \<noteq> Some 201"
  shows "users (snd (register rt req_username req_password req_email req_file w)) = users w
       \<and> (\<forall>file. req_file = Some file \<longrightarrow>
            file_path file
              \<notin> files (snd (register rt req_username req_password req_email req_file w)))"
proof (cases req_file)
  case None
  then show ?thesis
    by (simp add: register_def register_handler_def upload_single_def split: option.splits)
next
  case (Some up)
  let ?w = "upload_single req_file w"
  have p: "file_path up \<in> files ?w" and u: "users ?w = users w"
    using Some by (simp_all add: upload_single_def)
  show ?thesis
  proof (cases "req_username = None \<or> req_password = None \<or> req_email = None")
    case True
    then have "register rt req_username req_password req_email req_file w
        = (Sent 400 (Text ''Missing Arguments''), ?w\<lparr>files := files ?w - {file_path up}\<rparr>)"
      using Some p
      by (auto simp: register_def register_handler_def asyncUnlink_present split: option.splits)
    then show ?thesis using Some u by simp
  next
    case False
    then obtain name pw mail where
      f: "req_username = Some name" "req_password = Some pw" "req_email = Some mail"
      by auto
    have R: "register rt req_username req_password req_email req_file w
        = register_checked rt name pw mail up ?w"
      using f Some by (simp add: register_def register_handler_def)
    show ?thesis
      using register_checked_clean [OF p, of rt name pw mail] assms u Some unfolding R by simp
  qed
qed

theorem failed_registration_leaves_nothing_witness:
  "status_of (fst (register rt0 (Some ''bob'') (Some ''pw'') (Some ''bob@example.org'')
       (Some \<lparr>file_path = ''public/avatars/2.png'', mimetype = ''image/png''\<rparr>)
       (world0\<lparr>faults := [False, True]\<rparr>))) \<noteq> Some 201
   \<and> fst (register rt0 (Some ''bob'') (Some ''pw'') (Some ''bob@example.org'')
       (Some \<lparr>file_path = ''public/avatars/2.png'', mimetype = ''image/png''\<rparr>)
       (world0\<lparr>faults := [False, True]\<rparr>)) = Threw
   \<and> users (snd (register rt0 (Some ''bob'') (Some ''pw'') (Some ''bob@example.org'')
       (Some \<lparr>file_path = ''public/avatars/2.png'', mimetype = ''image/png''\<rparr>)
       (world0\<lparr>faults := [False, True]\<rparr>))) = [alice]
   \<and> ''public/avatars/2.png'' \<notin> files (snd (register rt0 (Some ''bob'') (Some ''pw'')
       (Some ''bob@example.org'')
       (Some \<lparr>file_path = ''public/avatars/2.png'', mimetype = ''image/png''\<rparr>)
       (world0\<lparr>faults := [False, True]\<rparr>)))"
proof -
  let ?R = "register rt0 (Some ''bob'') (Some ''pw'') (Some ''bob@example.org'')
       (Some \<lparr>file_path = ''public/avatars/2.png'', mimetype = ''image/png''\<rparr>)
       (world0\<lparr>faults := [False, True]\<rparr>)"
  have r: "fst ?R = Threw"
    by (simp add: register_def register_handler_def register_checked_def register_catch_def
        upload_single_def asyncUnlink_def findOneByUsername_def create_def store_call_def
        world0_def alice_def rt0_def)
  then have h: "status_of (fst ?R) \<noteq> Some 201" by (simp add: status_of_def)
  from failed_registration_leaves_nothing [OF h] h r show ?thesis
    by (simp add: world0_def)
qed

end
